theory Spec2Isabelle
  imports Complex_Main
begin

section \<open>Numbers, instants and the calendar\<close>

text \<open>
  The TypeScript sources compute on JavaScript numbers and on \<^verbatim>\<open>Date\<close> objects.
  Amounts and day counts are modelled as rationals (exact arithmetic, no rounding of
  binary floating point), and a \<^verbatim>\<open>Date\<close> as its time value: the number of
  milliseconds since 1970-01-01T00:00:00Z, an integer.  A date string stored in a record is
  held as the instant it parses to, and a missing value (\<^verbatim>\<open>null\<close>) is \<open>None\<close>.

  The calendar functions below follow the date algorithms of the ECMAScript
  specification (Day, DayFromYear, YearFromTime, MonthFromTime, DateFromTime, WeekDay,
  MakeDay, MakeDate).  The host time zone is taken to be UTC without daylight saving, so
  the local-time methods \<^verbatim>\<open>getDate\<close>, \<^verbatim>\<open>getDay\<close>, \<^verbatim>\<open>setDate\<close>,
  \<^verbatim>\<open>setMonth\<close> and \<^verbatim>\<open>setHours\<close> read and write the same fields as
  \<^verbatim>\<open>toISOString\<close>.
\<close>

definition Math_ceil :: "rat \<Rightarrow> rat" where
  "Math_ceil x = of_int \<lceil>x\<rceil>"

definition msPerDay :: int where
  "msPerDay = 1000 * 60 * 60 * 24"

definition Day :: "int \<Rightarrow> int" where
  "Day t = t div msPerDay"

definition TimeWithinDay :: "int \<Rightarrow> int" where
  "TimeWithinDay t = t mod msPerDay"

definition DayFromYear :: "int \<Rightarrow> int" where
  "DayFromYear y =
     365 * (y - 1970) + (y - 1969) div 4 - (y - 1901) div 100 + (y - 1601) div 400"

definition InLeapYear :: "int \<Rightarrow> bool" where
  "InLeapYear y = (y mod 4 = 0 \<and> (y mod 100 \<noteq> 0 \<or> y mod 400 = 0))"

definition DaysInYear :: "int \<Rightarrow> int" where
  "DaysInYear y = (if InLeapYear y then 366 else 365)"

lemma div_step:
  fixes a n :: int
  assumes "0 < n"
  shows "(a + 1) div n = a div n + (if (a + 1) mod n = 0 then 1 else 0)"
proof -
  define q where "q = a div n"
  define r where "r = a mod n"
  have a: "a = q * n + r" by (simp add: q_def r_def)
  have r: "0 \<le> r" "r < n" using assms by (simp_all add: r_def)
  show ?thesis
  proof (cases "r + 1 = n")
    case True
    then have "a + 1 = (q + 1) * n" using a by (simp add: algebra_simps)
    then show ?thesis using assms by (simp add: q_def)
  next
    case False
    then have lt: "r + 1 < n" using r by simp
    have eq: "a + 1 = q * n + (r + 1)" using a by simp
    have "(a + 1) div n = q"
      unfolding eq using lt r assms by (simp add: div_pos_pos_trivial)
    moreover have "(a + 1) mod n = r + 1"
      unfolding eq using lt r by (simp add: mod_pos_pos_trivial)
    ultimately show ?thesis using r by (simp add: q_def)
  qed
qed

lemma mod_shift: "c mod n = 0 \<Longrightarrow> ((y::int) - c) mod n = y mod n"
  by (metis diff_zero mod_diff_right_eq)

lemma mod_400_100: "(y::int) mod 400 = 0 \<Longrightarrow> y mod 100 = 0"
proof -
  assume "y mod 400 = 0"
  then obtain k where "y = 400 * k" by (auto simp: mod_eq_0_iff_dvd)
  then have "y = 100 * (4 * k)" by simp
  then show ?thesis by (metis mod_mult_self1_is_0)
qed

lemma mod_100_4: "(y::int) mod 100 = 0 \<Longrightarrow> y mod 4 = 0"
proof -
  assume "y mod 100 = 0"
  then obtain k where "y = 100 * k" by (auto simp: mod_eq_0_iff_dvd)
  then have "y = 4 * (25 * k)" by simp
  then show ?thesis by (metis mod_mult_self1_is_0)
qed

lemma DayFromYear_next: "DayFromYear (y + 1) = DayFromYear y + DaysInYear y"
proof -
  have a: "(y + 1 - 1969) div 4 = (y - 1969) div 4 + (if y mod 4 = 0 then 1 else 0)"
  proof -
    have "y + 1 - 1969 = (y - 1969) + 1" by simp
    moreover have "((y - 1969) + 1) mod 4 = 0 \<longleftrightarrow> y mod 4 = 0"
      using mod_shift[of 1968 4 y] by simp
    ultimately show ?thesis using div_step[of 4 "y - 1969"] by simp
  qed
  have b: "(y + 1 - 1901) div 100 = (y - 1901) div 100 + (if y mod 100 = 0 then 1 else 0)"
  proof -
    have "y + 1 - 1901 = (y - 1901) + 1" by simp
    moreover have "((y - 1901) + 1) mod 100 = 0 \<longleftrightarrow> y mod 100 = 0"
      using mod_shift[of 1900 100 y] by simp
    ultimately show ?thesis using div_step[of 100 "y - 1901"] by simp
  qed
  have c: "(y + 1 - 1601) div 400 = (y - 1601) div 400 + (if y mod 400 = 0 then 1 else 0)"
  proof -
    have "y + 1 - 1601 = (y - 1601) + 1" by simp
    moreover have "((y - 1601) + 1) mod 400 = 0 \<longleftrightarrow> y mod 400 = 0"
      using mod_shift[of 1600 400 y] by simp
    ultimately show ?thesis using div_step[of 400 "y - 1601"] by simp
  qed
  define A where "A = (y - 1969) div 4"
  define B where "B = (y - 1901) div 100"
  define C where "C = (y - 1601) div 400"
  have "DayFromYear (y + 1) = 365 * (y + 1 - 1970) + (A + (if y mod 4 = 0 then 1 else 0))
      - (B + (if y mod 100 = 0 then 1 else 0)) + (C + (if y mod 400 = 0 then 1 else 0))"
    unfolding DayFromYear_def a b c A_def B_def C_def ..
  moreover have "DayFromYear y = 365 * (y - 1970) + A - B + C"
    unfolding DayFromYear_def A_def B_def C_def ..
  ultimately show ?thesis
    unfolding DaysInYear_def InLeapYear_def
    using mod_400_100[of y] mod_100_4[of y]
    by (cases "y mod 4 = 0"; cases "y mod 100 = 0"; cases "y mod 400 = 0"; simp)
qed

lemma DayFromYear_less_next: "DayFromYear y < DayFromYear (y + 1)"
  by (simp add: DayFromYear_next DaysInYear_def)

lemma DayFromYear_prev_less: "DayFromYear (y - 1) < DayFromYear y"
  using DayFromYear_less_next[of "y - 1"] by simp

text \<open>
  YearFromTime is "the largest integer \<open>y\<close> such that DayFromYear \<open>y\<close> is at most the
  day": found by stepping down and then up from an estimate.
\<close>

function yearDown :: "int \<Rightarrow> int \<Rightarrow> int" where
  "yearDown d y = (if d < DayFromYear y then yearDown d (y - 1) else y)"
  by pat_completeness auto
termination
proof (relation "measure (\<lambda>(d, y). nat (DayFromYear y - d))")
  show "wf (measure (\<lambda>(d, y). nat (DayFromYear y - d)))" by simp
next
  fix d y :: int
  assume "d < DayFromYear y"
  then show "((d, y - 1), (d, y)) \<in> measure (\<lambda>(d, y). nat (DayFromYear y - d))"
    using DayFromYear_prev_less[of y] by simp
qed

function yearUp :: "int \<Rightarrow> int \<Rightarrow> int" where
  "yearUp d y = (if DayFromYear (y + 1) \<le> d then yearUp d (y + 1) else y)"
  by pat_completeness auto
termination
proof (relation "measure (\<lambda>(d, y). nat (d - DayFromYear y))")
  show "wf (measure (\<lambda>(d, y). nat (d - DayFromYear y)))" by simp
next
  fix d y :: int
  assume "DayFromYear (y + 1) \<le> d"
  then show "((d, y + 1), (d, y)) \<in> measure (\<lambda>(d, y). nat (d - DayFromYear y))"
    using DayFromYear_less_next[of y] by simp
qed

declare yearDown.simps [simp del] yearUp.simps [simp del]

definition YearFromDay :: "int \<Rightarrow> int" where
  "YearFromDay d = yearUp d (yearDown d (1970 + d div 365))"

definition DayWithinYear :: "int \<Rightarrow> int" where
  "DayWithinYear d = d - DayFromYear (YearFromDay d)"

text \<open>The day within the year on which month \<open>m\<close> (0 = January) begins.\<close>

definition MonthStart :: "bool \<Rightarrow> int \<Rightarrow> int" where
  "MonthStart leap m =
     (let l = (if leap then 1 else 0) in
      if m = 0 then 0 else if m = 1 then 31 else if m = 2 then 59 + l
      else if m = 3 then 90 + l else if m = 4 then 120 + l else if m = 5 then 151 + l
      else if m = 6 then 181 + l else if m = 7 then 212 + l else if m = 8 then 243 + l
      else if m = 9 then 273 + l else if m = 10 then 304 + l else 334 + l)"

definition MonthFromDay :: "int \<Rightarrow> int" where
  "MonthFromDay d =
     (let w = DayWithinYear d; l = (if InLeapYear (YearFromDay d) then 1 else 0) in
      if w < 31 then 0 else if w < 59 + l then 1 else if w < 90 + l then 2
      else if w < 120 + l then 3 else if w < 151 + l then 4 else if w < 181 + l then 5
      else if w < 212 + l then 6 else if w < 243 + l then 7 else if w < 273 + l then 8
      else if w < 304 + l then 9 else if w < 334 + l then 10 else 11)"

definition DateFromDay :: "int \<Rightarrow> int" where
  "DateFromDay d =
     DayWithinYear d - MonthStart (InLeapYear (YearFromDay d)) (MonthFromDay d) + 1"

definition WeekDay :: "int \<Rightarrow> int" where
  "WeekDay d = (d + 4) mod 7"

definition MakeDay :: "int \<Rightarrow> int \<Rightarrow> int \<Rightarrow> int" where
  "MakeDay y m dt =
     (let ym = y + m div 12; mn = m mod 12
      in DayFromYear ym + MonthStart (InLeapYear ym) mn + dt - 1)"

definition MakeDate :: "int \<Rightarrow> int \<Rightarrow> int" where
  "MakeDate day time = day * msPerDay + time"

text \<open>The length of month \<open>m\<close> (0 = January) of year \<open>y\<close>.\<close>

definition DaysInMonth :: "int \<Rightarrow> int \<Rightarrow> int" where
  "DaysInMonth y m =
     (if m = 1 then (if InLeapYear y then 29 else 28)
      else if m = 3 \<or> m = 5 \<or> m = 8 \<or> m = 10 then 30 else 31)"

subsection \<open>The methods of Date that the sources call\<close>

definition getFullYear :: "int \<Rightarrow> int" where
  "getFullYear t = YearFromDay (Day t)"

definition getMonth :: "int \<Rightarrow> int" where
  "getMonth t = MonthFromDay (Day t)"

definition getDate :: "int \<Rightarrow> int" where
  "getDate t = DateFromDay (Day t)"

definition getDay :: "int \<Rightarrow> int" where
  "getDay t = WeekDay (Day t)"

definition setDate :: "int \<Rightarrow> int \<Rightarrow> int" where
  "setDate t dt = MakeDate (MakeDay (getFullYear t) (getMonth t) dt) (TimeWithinDay t)"

definition setMonth :: "int \<Rightarrow> int \<Rightarrow> int" where
  "setMonth t m = MakeDate (MakeDay (getFullYear t) m (getDate t)) (TimeWithinDay t)"

text \<open>\<^verbatim>\<open>d.setHours(0,0,0,0)\<close>: midnight of the same day.\<close>

definition setHoursZero :: "int \<Rightarrow> int" where
  "setHoursZero t = MakeDate (Day t) 0"

text \<open>
  \<^verbatim>\<open>d.toISOString().split('T')[0]\<close> is the text \<^verbatim>\<open>YYYY-MM-DD\<close> of the day of
  \<open>d\<close>; two such texts are equal exactly when the days are, so the text is represented by
  the day number.  A value of an \<^verbatim>\<open><input type="date">\<close> is represented the
  same way, and \<^verbatim>\<open>new Date(text)\<close> of it is midnight of that day.
\<close>

definition isoDate :: "int \<Rightarrow> int" where
  "isoDate t = Day t"

definition dateOfIso :: "int \<Rightarrow> int" where
  "dateOfIso day = MakeDate day 0"

section \<open>Records of the store (types.ts)\<close>

datatype loan_status = Active | Paid | Defaulted

text \<open>
  \<^verbatim>\<open>payment_frequency\<close> is an optional field and a free text column of the store, so
  it is a string that may be absent.
\<close>

record loan =
  loan_id :: string
  borrower_id :: string
  principal :: rat
  interest_rate :: rat
  total_payable :: rat
  balance :: rat
  start_date :: int
  due_date :: "int option"
  status :: loan_status
  payment_frequency :: "string option"

record payment =
  pay_loan_id :: string
  amount :: rat
  payment_date :: int

record borrower =
  b_id :: string
  b_name :: string

text \<open>\<^verbatim>\<open>loan.payment_frequency || 'daily'\<close>: absent and empty are falsy.\<close>

definition freqOrDaily :: "string option \<Rightarrow> string" where
  "freqOrDaily f = (case f of None \<Rightarrow> ''daily'' | Some s \<Rightarrow> if s = [] then ''daily'' else s)"

text \<open>\<^verbatim>\<open>loan.due_date ? new Date(loan.due_date) : new Date()\<close>\<close>

definition dueOrNow :: "int \<Rightarrow> int option \<Rightarrow> int" where
  "dueOrNow now d = (case d of None \<Rightarrow> now | Some t \<Rightarrow> t)"

text \<open>
  \<^verbatim>\<open>Math.max(1, Math.ceil(Math.abs(end.getTime() - start.getTime()) / (1000*60*60*24)))\<close>
\<close>

definition diffDays :: "int \<Rightarrow> int \<Rightarrow> rat" where
  "diffDays start en = max 1 (Math_ceil (of_int \<bar>en - start\<bar> / of_int msPerDay))"

section \<open>Loans.tsx: the installment preview\<close>

definition totalPayable :: "rat \<Rightarrow> rat \<Rightarrow> rat" where
  "totalPayable principalNum interestRate = principalNum + (principalNum * (interestRate / 100))"

record installment_info =
  ii_amount :: rat
  ii_count :: rat

definition getInstallmentInfo :: "rat \<Rightarrow> rat \<Rightarrow> string \<Rightarrow> installment_info" where
  "getInstallmentInfo tot days freq =
     (if tot \<le> 0 \<or> days \<le> 0 then \<lparr>ii_amount = 0, ii_count = 0\<rparr>
      else
        let divisor =
              (if freq = ''daily'' then days
               else if freq = ''weekly'' then Math_ceil (days / 7)
               else if freq = ''monthly'' then Math_ceil (days / 30)
               else if freq = ''lump_sum'' then 1
               else days);
            divisor = (if divisor < 1 then 1 else divisor)
        in \<lparr>ii_amount = tot / divisor, ii_count = divisor\<rparr>)"

text \<open>
  The call for a stored loan (the detail view):
  \<^verbatim>\<open>diffDays = Math.ceil(diffTime / (1000*60*60*24)) || 1\<close>.
\<close>

definition detailDiffDays :: "int \<Rightarrow> int \<Rightarrow> rat" where
  "detailDiffDays start en =
     (let c = Math_ceil (of_int \<bar>en - start\<bar> / of_int msPerDay) in if c = 0 then 1 else c)"

definition currentInstallmentInfo :: "int \<Rightarrow> loan \<Rightarrow> installment_info" where
  "currentInstallmentInfo now selectedLoan =
     getInstallmentInfo (total_payable selectedLoan)
       (detailDiffDays (start_date selectedLoan) (dueOrNow now (due_date selectedLoan)))
       (freqOrDaily (payment_frequency selectedLoan))"

text \<open>What both views print: \<^verbatim>\<open>Math.ceil(installmentInfo.amount)\<close>.\<close>

definition shownInstallment :: "installment_info \<Rightarrow> rat" where
  "shownInstallment info = Math_ceil (ii_amount info)"

section \<open>Payments.tsx: recording a payment\<close>

definition activeLoans :: "loan list \<Rightarrow> loan list" where
  "activeLoans loans = filter (\<lambda>l. balance l > 0) loans"

text \<open>The divisor of \<^verbatim>\<open>getTargetPayment\<close>, named so that it can be spoken about.\<close>

definition targetDivisor :: "int \<Rightarrow> loan \<Rightarrow> rat" where
  "targetDivisor now l =
     (let dd = diffDays (start_date l) (dueOrNow now (due_date l));
          freq = freqOrDaily (payment_frequency l)
      in if freq = ''daily'' then dd
         else if freq = ''weekly'' then max 1 (Math_ceil (dd / 7))
         else if freq = ''monthly'' then max 1 (Math_ceil (dd / 30))
         else if freq = ''lump_sum'' then 1
         else dd)"

record target_info =
  ti_amount :: rat
  ti_frequency :: string

definition getTargetPayment :: "int \<Rightarrow> loan \<Rightarrow> target_info" where
  "getTargetPayment now l =
     \<lparr>ti_amount = Math_ceil (total_payable l / targetDivisor now l),
      ti_frequency = freqOrDaily (payment_frequency l)\<rparr>"

text \<open>
  \<^verbatim>\<open>handleSubmit\<close> writes to the store.  The store is passed explicitly; the two
  requests can fail, which the flags \<open>payError\<close> and \<open>updateError\<close> say.  The amount is
  the text of the input field: \<open>None\<close> when it is empty.
\<close>

record store =
  st_loans :: "loan list"
  st_payments :: "payment list"

definition updateLoan :: "string \<Rightarrow> rat \<Rightarrow> loan_status \<Rightarrow> loan \<Rightarrow> loan" where
  "updateLoan sel newBalance newStatus l =
     (if loan_id l = sel then l\<lparr>balance := newBalance, status := newStatus\<rparr> else l)"

definition handleSubmit ::
  "int \<Rightarrow> bool \<Rightarrow> bool \<Rightarrow> string \<Rightarrow> rat option \<Rightarrow> store \<Rightarrow> store" where
  "handleSubmit now payError updateError selectedLoanId amountText st =
     (case amountText of
        None \<Rightarrow> st
      | Some numAmount \<Rightarrow>
          if selectedLoanId = [] then st
          else if payError then st
          else
            let st1 = st\<lparr>st_payments := st_payments st @
                        [\<lparr>pay_loan_id = selectedLoanId, amount = numAmount, payment_date = now\<rparr>]\<rparr>
            in case find (\<lambda>l. loan_id l = selectedLoanId) (st_loans st) of
                 None \<Rightarrow> st1
               | Some l \<Rightarrow>
                   let newBalance = max 0 (balance l - numAmount);
                       newStatus = (if newBalance = 0 then Paid else Active)
                   in if updateError then st1
                      else st1\<lparr>st_loans :=
                             map (updateLoan selectedLoanId newBalance newStatus) (st_loans st1)\<rparr>)"

section \<open>BorrowerPortal.tsx: the schedule and the payments of today\<close>

record schedule_date =
  sd_date :: int
  isPast :: bool
  isToday :: bool

record schedule_entry =
  se_date :: int
  se_isPast :: bool
  se_isToday :: bool
  se_amount :: rat

definition incrementDate :: "string \<Rightarrow> int \<Rightarrow> int \<Rightarrow> int" where
  "incrementDate freq en d =
     (if freq = ''daily'' then setDate d (getDate d + 1)
      else if freq = ''weekly'' then setDate d (getDate d + 7)
      else if freq = ''monthly'' then setMonth d (getMonth d + 1)
      else if freq = ''lump_sum'' then en
      else setDate d (getDate d + 1))"

function scheduleLoop ::
  "string \<Rightarrow> int \<Rightarrow> int \<Rightarrow> int \<Rightarrow> nat \<Rightarrow> schedule_date list \<Rightarrow> schedule_date list" where
  "scheduleLoop freq en today current safetyCounter dates =
     (if current \<le> en \<and> safetyCounter < 1000
      then scheduleLoop freq en today (incrementDate freq en current) (safetyCounter + 1)
             (dates @ [\<lparr>sd_date = current,
                        isPast = (setHoursZero current < today),
                        isToday = (setHoursZero current = today)\<rparr>])
      else dates)"
  by pat_completeness auto
termination
  by (relation "measure (\<lambda>(freq, en, today, current, safetyCounter, dates). 1000 - safetyCounter)")
     auto

declare scheduleLoop.simps [simp del]

definition scheduleDates :: "int \<Rightarrow> loan \<Rightarrow> schedule_date list" where
  "scheduleDates now loanData =
     (let start = start_date loanData;
          en = dueOrNow now (due_date loanData);
          freq = freqOrDaily (payment_frequency loanData);
          today = setHoursZero now
      in if freq = ''lump_sum''
         then [\<lparr>sd_date = en, isPast = (en < today), isToday = (en = today)\<rparr>]
         else scheduleLoop freq en today (incrementDate freq en start) 0 [])"

definition schedule :: "int \<Rightarrow> loan option \<Rightarrow> schedule_entry list" where
  "schedule now loanData =
     (case loanData of
        None \<Rightarrow> []
      | Some l \<Rightarrow>
          let dates = scheduleDates now l;
              amountPerPayment =
                Math_ceil (total_payable l / (if length dates = 0 then 1 else of_nat (length dates)))
          in map (\<lambda>d. \<lparr>se_date = sd_date d, se_isPast = isPast d, se_isToday = isToday d,
                       se_amount = amountPerPayment\<rparr>) dates)"

definition isDueToday :: "int \<Rightarrow> loan option \<Rightarrow> bool" where
  "isDueToday now loanData =
     (case loanData of
        None \<Rightarrow> False
      | Some l \<Rightarrow> status l = Active \<and> list_ex se_isToday (schedule now loanData))"

text \<open>
  The label that the schedule table prints for an entry:
  \<^verbatim>\<open>item.isPast ? 'Past' : item.isToday ? 'Today' : 'Upcoming'\<close>.
\<close>

datatype temporal_class = Past | Today | Upcoming

definition entryStatus :: "schedule_entry \<Rightarrow> temporal_class" where
  "entryStatus item = (if se_isPast item then Past else if se_isToday item then Today else Upcoming)"

definition paymentsToday :: "int \<Rightarrow> payment list \<Rightarrow> payment list" where
  "paymentsToday now paymentHistory =
     filter (\<lambda>p. isoDate (payment_date p) = isoDate now) paymentHistory"

definition currentInstallmentAmount :: "int \<Rightarrow> loan option \<Rightarrow> rat" where
  "currentInstallmentAmount now loanData =
     (case schedule now loanData of [] \<Rightarrow> 0 | s # _ \<Rightarrow> se_amount s)"

definition amountPaidToday :: "int \<Rightarrow> payment list \<Rightarrow> rat" where
  "amountPaidToday now paymentHistory =
     foldl (\<lambda>acc curr. acc + amount curr) 0 (paymentsToday now paymentHistory)"

definition remainingDueToday :: "int \<Rightarrow> loan option \<Rightarrow> payment list \<Rightarrow> rat" where
  "remainingDueToday now loanData paymentHistory =
     max 0 (currentInstallmentAmount now loanData - amountPaidToday now paymentHistory)"

definition isFullyPaidToday :: "int \<Rightarrow> loan option \<Rightarrow> payment list \<Rightarrow> bool" where
  "isFullyPaidToday now loanData paymentHistory =
     (amountPaidToday now paymentHistory \<ge> currentInstallmentAmount now loanData)"

section \<open>Dashboard.tsx: the collections of a selected date\<close>

text \<open>
  \<open>selectedDate\<close> is the value of the date picker, a day.  The filter of
  \<^verbatim>\<open>scheduledCollections\<close> is \<open>collectionDue\<close>.  \<^verbatim>\<open>startDate.setHours(0,0,0,0)\<close>
  changes \<^verbatim>\<open>startDate\<close> itself, so the later reads are of the changed date.
  \<^verbatim>\<open>new Date(null)\<close> is the instant 0.
\<close>

definition collectionDue :: "int \<Rightarrow> loan \<Rightarrow> bool" where
  "collectionDue selectedDate l =
     (let targetDate = dateOfIso selectedDate;
          targetDayOfWeek = getDay targetDate;
          targetDayOfMonth = getDate targetDate
      in if status l \<noteq> Active \<and> status l \<noteq> Defaulted then False
         else
           let selectedTime = setHoursZero (dateOfIso selectedDate);
               startDate = setHoursZero (start_date l);
               startTime = startDate
           in if selectedTime < startTime then False
              else if payment_frequency l = Some ''weekly''
                then getDay startDate = targetDayOfWeek
              else if payment_frequency l = Some ''monthly''
                then getDate startDate = targetDayOfMonth
              else if payment_frequency l = Some ''lump_sum''
                then isoDate (case due_date l of None \<Rightarrow> 0 | Some t \<Rightarrow> t) = selectedDate
              else True)"

definition collectionDivisor :: "int \<Rightarrow> loan \<Rightarrow> rat" where
  "collectionDivisor now l =
     (let dd = diffDays (start_date l) (dueOrNow now (due_date l))
      in if payment_frequency l = Some ''daily'' then dd
         else if payment_frequency l = Some ''weekly'' then max 1 (Math_ceil (dd / 7))
         else if payment_frequency l = Some ''monthly'' then max 1 (Math_ceil (dd / 30))
         else 1)"

record collection_item =
  ci_loan :: loan
  ci_borrower :: "borrower option"
  targetAmount :: rat
  paidAmount :: rat
  isPaid :: bool

text \<open>
  \<^verbatim>\<open>p.payment_date.startsWith(selectedDate)\<close>: the stored text of a payment date
  begins with its day.
\<close>

definition collectionItem ::
  "int \<Rightarrow> int \<Rightarrow> borrower list \<Rightarrow> payment list \<Rightarrow> loan \<Rightarrow> collection_item" where
  "collectionItem now selectedDate borrowers payments l =
     (let paymentToday =
            find (\<lambda>p. pay_loan_id p = loan_id l \<and> isoDate (payment_date p) = selectedDate)
              payments
      in \<lparr>ci_loan = l,
          ci_borrower = find (\<lambda>b. b_id b = borrower_id l) borrowers,
          targetAmount = total_payable l / collectionDivisor now l,
          paidAmount = (case paymentToday of None \<Rightarrow> 0 | Some p \<Rightarrow> amount p),
          isPaid = (paymentToday \<noteq> None)\<rparr>)"


section \<open>analytics.ts: the standing of a borrower\<close>






section \<open>Vocabulary of the specification\<close>

text \<open>
  One calendar month after an instant: the same day of the month and time of day in the
  following month, and the last day of that month when it has no such day (one month
  after 31 January is the last day of February).
\<close>

definition calendarMonthLater :: "int \<Rightarrow> int" where
  "calendarMonthLater d =
     (let y = getFullYear d + (getMonth d + 1) div 12;
          m = (getMonth d + 1) mod 12
      in MakeDate (MakeDay y m (min (getDate d) (DaysInMonth y m))) (TimeWithinDay d))"

text \<open>
  "Advance by one period", read from the stored frequency: 7 days for weekly, one
  calendar month for monthly, 1 day for daily and for a frequency that is missing or not
  recognised.
\<close>

definition onePeriodLater :: "string option \<Rightarrow> int \<Rightarrow> int" where
  "onePeriodLater frequency d =
     (if frequency = Some ''weekly'' then d + 7 * msPerDay
      else if frequency = Some ''monthly'' then calendarMonthLater d
      else d + msPerDay)"

text \<open>
  The dates obtained by advancing from \<open>d\<close> one step at a time, for as long as the
  advanced date is not after \<open>due\<close>, and at most \<open>n\<close> of them.
\<close>

fun advancedDates :: "nat \<Rightarrow> (int \<Rightarrow> int) \<Rightarrow> int \<Rightarrow> int \<Rightarrow> int list" where
  "advancedDates 0 step due d = []"
| "advancedDates (Suc n) step due d =
     (if step d \<le> due then step d # advancedDates n step due (step d) else [])"

text \<open>
  The dates of the schedule as the specification gives them: the due date alone for a
  lump sum, otherwise the dates advanced from the start date, at most 1000.
\<close>

definition claimedDates :: "int \<Rightarrow> loan \<Rightarrow> int list" where
  "claimedDates now l =
     (if payment_frequency l = Some ''lump_sum'' then [dueOrNow now (due_date l)]
      else advancedDates 1000 (onePeriodLater (payment_frequency l))
             (dueOrNow now (due_date l)) (start_date l))"

text \<open>
  The period count of a term of \<open>termDays\<close> days: the day count for daily, the number
  of started weeks or of started 30-day months (at least 1) for weekly and monthly, 1 for
  a lump sum, and the daily rule for any other frequency.
\<close>

definition periodCount :: "string \<Rightarrow> rat \<Rightarrow> rat" where
  "periodCount freq termDays =
     (if freq = ''daily'' then termDays
      else if freq = ''weekly'' then max 1 (Math_ceil (termDays / 7))
      else if freq = ''monthly'' then max 1 (Math_ceil (termDays / 30))
      else if freq = ''lump_sum'' then 1
      else termDays)"

text \<open>
  The class of a date against the reference instant, by calendar day: past when the day
  is before the day of the reference, today when the days are equal, upcoming otherwise.
\<close>

definition temporalClass :: "int \<Rightarrow> int \<Rightarrow> temporal_class" where
  "temporalClass now d =
     (if Day d < Day now then Past else if Day d = Day now then Today else Upcoming)"

text \<open>
  The amount collected on a day: the sum of the amounts of the payments dated on it.
\<close>

definition collectedOn :: "int \<Rightarrow> payment list \<Rightarrow> rat" where
  "collectedOn day ps = sum_list (map amount (filter (\<lambda>p. Day (payment_date p) = day) ps))"









section \<open>Example records\<close>

text \<open>
  The loan of the specification's example: 1000 at 20 percent, daily, from
  2024-01-01 to 2024-01-11 (both at midnight).
\<close>

definition exampleLoan :: loan where
  "exampleLoan = \<lparr>loan_id = ''L-1'', borrower_id = ''B-1'', principal = 1000, interest_rate = 20,
     total_payable = 1200, balance = 1200, start_date = 1704067200000,
     due_date = Some 1704931200000, status = Active, payment_frequency = Some ''daily''\<rparr>"

text \<open>The same loan as a lump sum, and with weekly installments.\<close>

definition exampleLumpSum :: loan where
  "exampleLumpSum = exampleLoan\<lparr>payment_frequency := Some ''lump_sum''\<rparr>"

definition exampleWeekly :: loan where
  "exampleWeekly = exampleLoan\<lparr>payment_frequency := Some ''weekly''\<rparr>"


text \<open>A monthly loan from 2024-01-31 to 2024-06-30 (both at midnight).\<close>

definition exampleMonthEnd :: loan where
  "exampleMonthEnd = exampleLoan\<lparr>start_date := 1706659200000, due_date := Some 1719705600000,
     payment_frequency := Some ''monthly''\<rparr>"

text \<open>
  A lump-sum loan due on 2024-01-11 at 10:30, and a loan whose frequency is missing.
\<close>

definition exampleLumpSumLate :: loan where
  "exampleLumpSumLate = exampleLumpSum\<lparr>due_date := Some 1704969000000\<rparr>"

definition exampleNoFrequency :: loan where
  "exampleNoFrequency = exampleLoan\<lparr>payment_frequency := None\<rparr>"

text \<open>A payment for the example loan on 2024-01-06 at 09:00.\<close>

definition examplePayment :: "rat \<Rightarrow> payment" where
  "examplePayment a = \<lparr>pay_loan_id = ''L-1'', amount = a, payment_date = 1704531600000\<rparr>"

section \<open>Facts about the calendar\<close>

text \<open>
  The year of a day is the largest year that begins on or before it, as YearFromTime is
  specified; so the day within the year is a day of that year.
\<close>

lemma yearDown_le: "DayFromYear (yearDown d y) \<le> d"
proof (induction d y rule: yearDown.induct)
  case (1 d y)
  show ?case
  proof (cases "d < DayFromYear y")
    case True
    then show ?thesis using "1.IH" by (subst yearDown.simps) simp
  next
    case False
    then show ?thesis by (subst yearDown.simps) simp
  qed
qed

lemma yearUp_bracket:
  "DayFromYear y \<le> d \<Longrightarrow>
   DayFromYear (yearUp d y) \<le> d \<and> d < DayFromYear (yearUp d y + 1)"
proof (induction d y rule: yearUp.induct)
  case (1 d y)
  show ?case
  proof (cases "DayFromYear (y + 1) \<le> d")
    case True
    then show ?thesis using "1.IH" by (subst (1 2) yearUp.simps) simp
  next
    case False
    then show ?thesis using "1.prems" by (subst (1 2) yearUp.simps) simp
  qed
qed

lemma YearFromDay_bracket:
  "DayFromYear (YearFromDay d) \<le> d \<and> d < DayFromYear (YearFromDay d + 1)"
  unfolding YearFromDay_def by (rule yearUp_bracket) (rule yearDown_le)

lemma YearFromDay_greatest: "DayFromYear y \<le> d \<Longrightarrow> y \<le> YearFromDay d"
proof (rule ccontr)
  assume le: "DayFromYear y \<le> d" and "\<not> y \<le> YearFromDay d"
  then have "YearFromDay d + 1 \<le> y" by simp
  moreover have mono: "a \<le> b \<Longrightarrow> DayFromYear a \<le> DayFromYear b" for a b
  proof -
    assume "a \<le> b"
    then obtain n where b: "b = a + int n" using zle_iff_zadd by blast
    have "DayFromYear a \<le> DayFromYear (a + int n)"
    proof (induction n)
      case 0
      show ?case by simp
    next
      case (Suc n)
      have "DayFromYear (a + int n) < DayFromYear (a + int n + 1)"
        by (rule DayFromYear_less_next)
      moreover have "a + int (Suc n) = a + int n + 1" by simp
      ultimately show ?case using Suc by (simp only:)
    qed
    then show ?thesis using b by simp
  qed
  ultimately have "DayFromYear (YearFromDay d + 1) \<le> DayFromYear y" by blast
  then show False using le YearFromDay_bracket[of d] by linarith
qed

lemma DayWithinYear_range:
  "0 \<le> DayWithinYear d \<and> DayWithinYear d < DaysInYear (YearFromDay d)"
  using YearFromDay_bracket[of d] DayFromYear_next[of "YearFromDay d"]
  by (simp add: DayWithinYear_def)

lemma MonthFromDay_range: "0 \<le> MonthFromDay d \<and> MonthFromDay d \<le> 11"
  by (simp add: MonthFromDay_def Let_def)

lemma DateFromDay_range:
  "1 \<le> DateFromDay d \<and> DateFromDay d \<le> DaysInMonth (YearFromDay d) (MonthFromDay d)"
proof -
  define w where "w = DayWithinYear d"
  define c where "c = (if InLeapYear (YearFromDay d) then 1 else 0 :: int)"
  have c: "c = 0 \<or> c = 1" by (simp add: c_def)
  have r: "0 \<le> w" "w < 365 + c"
    using DayWithinYear_range[of d] by (auto simp add: w_def c_def DaysInYear_def split: if_splits)
  have leap: "InLeapYear (YearFromDay d) = (c = 1)" by (simp add: c_def)
  have M: "MonthFromDay d =
      (if w < 31 then 0 else if w < 59 + c then 1 else if w < 90 + c then 2
      else if w < 120 + c then 3 else if w < 151 + c then 4 else if w < 181 + c then 5
      else if w < 212 + c then 6 else if w < 243 + c then 7 else if w < 273 + c then 8
      else if w < 304 + c then 9 else if w < 334 + c then 10 else 11)"
    unfolding MonthFromDay_def Let_def w_def c_def ..
  consider "w < 31" | "31 \<le> w" "w < 59 + c" | "59 + c \<le> w" "w < 90 + c"
    | "90 + c \<le> w" "w < 120 + c" | "120 + c \<le> w" "w < 151 + c"
    | "151 + c \<le> w" "w < 181 + c" | "181 + c \<le> w" "w < 212 + c"
    | "212 + c \<le> w" "w < 243 + c" | "243 + c \<le> w" "w < 273 + c"
    | "273 + c \<le> w" "w < 304 + c" | "304 + c \<le> w" "w < 334 + c" | "334 + c \<le> w"
    by linarith
  then show ?thesis
  proof cases
    case 1
    then have "MonthFromDay d = 0" by (simp add: M)
    then show ?thesis using 1 r
      by (simp add: DateFromDay_def MonthStart_def DaysInMonth_def w_def[symmetric])
  next
    case 2
    then have "MonthFromDay d = 1" by (simp add: M)
    then show ?thesis using 2 r c
      by (auto simp add: DateFromDay_def MonthStart_def DaysInMonth_def w_def[symmetric] leap)
  next
    case 3
    then have "MonthFromDay d = 2" using c by (auto simp add: M)
    then show ?thesis using 3 r c
      by (auto simp add: DateFromDay_def MonthStart_def DaysInMonth_def w_def[symmetric] leap)
  next
    case 4
    then have "MonthFromDay d = 3" using c by (auto simp add: M)
    then show ?thesis using 4 r c
      by (auto simp add: DateFromDay_def MonthStart_def DaysInMonth_def w_def[symmetric] leap)
  next
    case 5
    then have "MonthFromDay d = 4" using c by (auto simp add: M)
    then show ?thesis using 5 r c
      by (auto simp add: DateFromDay_def MonthStart_def DaysInMonth_def w_def[symmetric] leap)
  next
    case 6
    then have "MonthFromDay d = 5" using c by (auto simp add: M)
    then show ?thesis using 6 r c
      by (auto simp add: DateFromDay_def MonthStart_def DaysInMonth_def w_def[symmetric] leap)
  next
    case 7
    then have "MonthFromDay d = 6" using c by (auto simp add: M)
    then show ?thesis using 7 r c
      by (auto simp add: DateFromDay_def MonthStart_def DaysInMonth_def w_def[symmetric] leap)
  next
    case 8
    then have "MonthFromDay d = 7" using c by (auto simp add: M)
    then show ?thesis using 8 r c
      by (auto simp add: DateFromDay_def MonthStart_def DaysInMonth_def w_def[symmetric] leap)
  next
    case 9
    then have "MonthFromDay d = 8" using c by (auto simp add: M)
    then show ?thesis using 9 r c
      by (auto simp add: DateFromDay_def MonthStart_def DaysInMonth_def w_def[symmetric] leap)
  next
    case 10
    then have "MonthFromDay d = 9" using c by (auto simp add: M)
    then show ?thesis using 10 r c
      by (auto simp add: DateFromDay_def MonthStart_def DaysInMonth_def w_def[symmetric] leap)
  next
    case 11
    then have "MonthFromDay d = 10" using c by (auto simp add: M)
    then show ?thesis using 11 r c
      by (auto simp add: DateFromDay_def MonthStart_def DaysInMonth_def w_def[symmetric] leap)
  next
    case 12
    then have "MonthFromDay d = 11" using c by (auto simp add: M)
    then show ?thesis using 12 r c
      by (auto simp add: DateFromDay_def MonthStart_def DaysInMonth_def w_def[symmetric] leap)
  qed
qed

lemma MakeDay_fields:
  "MakeDay (YearFromDay d) (MonthFromDay d) (DateFromDay d + k) = d + k"
proof -
  have "MonthFromDay d div 12 = 0" "MonthFromDay d mod 12 = MonthFromDay d"
    using MonthFromDay_range[of d] by simp_all
  then show ?thesis
    by (simp add: MakeDay_def DateFromDay_def DayWithinYear_def)
qed

lemma MakeDate_Day: "MakeDate (Day t + k) (TimeWithinDay t) = t + k * msPerDay"
  by (simp add: MakeDate_def Day_def TimeWithinDay_def algebra_simps)

lemma setDate_add: "setDate t (getDate t + k) = t + k * msPerDay"
  by (simp add: setDate_def getDate_def getFullYear_def getMonth_def MakeDay_fields MakeDate_Day)

lemma MakeDay_next_month:
  assumes "0 \<le> m" "m \<le> 11"
  shows "MakeDay y (m + 1) dt = MakeDay y m dt + DaysInMonth y m"
proof (cases "m = 11")
  case True
  then show ?thesis
    by (simp add: MakeDay_def MonthStart_def DaysInMonth_def DayFromYear_next DaysInYear_def)
next
  case False
  then have m: "m \<in> {0,1,2,3,4,5,6,7,8,9,10}" using assms by (simp; arith)
  then have "(m + 1) div 12 = 0" "(m + 1) mod 12 = m + 1" "m div 12 = 0" "m mod 12 = m"
    by auto
  then show ?thesis using m
    by (auto simp add: MakeDay_def MonthStart_def DaysInMonth_def)
qed

lemma setMonth_next:
  "setMonth t (getMonth t + 1) = t + DaysInMonth (getFullYear t) (getMonth t) * msPerDay"
proof -
  have "MakeDay (getFullYear t) (getMonth t + 1) (getDate t)
      = MakeDay (getFullYear t) (getMonth t) (getDate t) + DaysInMonth (getFullYear t) (getMonth t)"
    using MonthFromDay_range[of "Day t"] by (simp add: MakeDay_next_month getMonth_def)
  also have "MakeDay (getFullYear t) (getMonth t) (getDate t) = Day t"
    using MakeDay_fields[of "Day t" 0] by (simp add: getFullYear_def getMonth_def getDate_def)
  finally show ?thesis
    by (simp add: setMonth_def MakeDate_Day)
qed

lemma msPerDay_pos: "0 < msPerDay"
  by (simp add: msPerDay_def)


lemma setHoursZero_less: "setHoursZero a < setHoursZero b \<longleftrightarrow> Day a < Day b"
  using msPerDay_pos by (simp add: setHoursZero_def MakeDate_def)


lemma setHoursZero_eq: "setHoursZero a = setHoursZero b \<longleftrightarrow> Day a = Day b"
  using msPerDay_pos by (simp add: setHoursZero_def MakeDate_def)



text \<open>
  The fields of a day made from a year, a month and a day of that month are that year,
  month and day.
\<close>

lemma DayFromYear_mono: "a \<le> b \<Longrightarrow> DayFromYear a \<le> DayFromYear b"
proof -
  assume "a \<le> b"
  then obtain n where b: "b = a + int n" using zle_iff_zadd by blast
  have "DayFromYear a \<le> DayFromYear (a + int n)"
  proof (induction n)
    case 0
    show ?case by simp
  next
    case (Suc n)
    have "DayFromYear (a + int n) < DayFromYear (a + int n + 1)"
      by (rule DayFromYear_less_next)
    moreover have "a + int (Suc n) = a + int n + 1" by simp
    ultimately show ?case using Suc by (simp only:)
  qed
  then show ?thesis using b by simp
qed

lemma YearFromDay_unique:
  assumes "DayFromYear y \<le> d" and "d < DayFromYear (y + 1)"
  shows "YearFromDay d = y"
proof -
  have ge: "y \<le> YearFromDay d" using assms(1) by (rule YearFromDay_greatest)
  have "\<not> y + 1 \<le> YearFromDay d"
  proof
    assume "y + 1 \<le> YearFromDay d"
    then have "DayFromYear (y + 1) \<le> DayFromYear (YearFromDay d)" by (rule DayFromYear_mono)
    then show False using YearFromDay_bracket[of d] assms(2) by linarith
  qed
  then show ?thesis using ge by linarith
qed

lemma fields_of_MakeDay:
  assumes m: "0 \<le> m" "m \<le> 11" and dt: "1 \<le> dt" "dt \<le> DaysInMonth y m"
  shows "YearFromDay (MakeDay y m dt) = y \<and> MonthFromDay (MakeDay y m dt) = m
         \<and> DateFromDay (MakeDay y m dt) = dt"
proof -
  define c where "c = (if InLeapYear y then 1 else 0 :: int)"
  have c: "c = 0 \<or> c = 1" by (simp add: c_def)
  have leap: "InLeapYear y = (c = 1)" by (simp add: c_def)
  define w where "w = MonthStart (InLeapYear y) m + dt - 1"
  have mm: "m div 12 = 0" "m mod 12 = m" using m by simp_all
  have D: "MakeDay y m dt = DayFromYear y + w"
    by (simp add: MakeDay_def Let_def mm w_def)
  have mcases: "m = 0 \<or> m = 1 \<or> m = 2 \<or> m = 3 \<or> m = 4 \<or> m = 5 \<or> m = 6 \<or> m = 7
      \<or> m = 8 \<or> m = 9 \<or> m = 10 \<or> m = 11"
    using m by arith
  have wr: "0 \<le> w" "w < 365 + c"
    using mcases dt c by (auto simp add: w_def MonthStart_def DaysInMonth_def leap)
  have yr: "YearFromDay (MakeDay y m dt) = y"
  proof (rule YearFromDay_unique)
    show "DayFromYear y \<le> MakeDay y m dt" using wr D by simp
    show "MakeDay y m dt < DayFromYear (y + 1)"
      using wr D by (simp add: DayFromYear_next DaysInYear_def c_def split: if_splits)
  qed
  have dw: "DayWithinYear (MakeDay y m dt) = w"
    unfolding DayWithinYear_def yr by (simp add: D)
  have mo: "MonthFromDay (MakeDay y m dt) = m"
    unfolding MonthFromDay_def Let_def dw yr c_def[symmetric]
    using mcases dt c by (auto simp add: w_def MonthStart_def DaysInMonth_def leap)
  have "DateFromDay (MakeDay y m dt) = dt"
    by (simp add: DateFromDay_def dw yr mo w_def)
  then show ?thesis using yr mo by simp
qed


lemma DaysInMonth_ge_28: "28 \<le> DaysInMonth y m"
  by (simp add: DaysInMonth_def)

lemma Day_MakeDate_TimeWithinDay: "Day (MakeDate D (TimeWithinDay t)) = D"
  using msPerDay_pos by (simp add: Day_def MakeDate_def TimeWithinDay_def)

section \<open>Facts about day counts and divisors\<close>

lemma Math_ceil_Ints: "Math_ceil x \<in> \<int>"
  by (simp add: Math_ceil_def)

lemma Math_ceil_ge_one: "0 < x \<Longrightarrow> 1 \<le> Math_ceil x"
proof -
  assume "0 < x"
  then have "0 < \<lceil>x\<rceil>" by (simp add: ceiling_less_iff less_ceiling_iff)
  then have "1 \<le> \<lceil>x\<rceil>" by linarith
  then show ?thesis unfolding Math_ceil_def by (metis of_int_1 of_int_le_iff)
qed

lemma diffDays_ge_one: "1 \<le> diffDays s e"
  by (simp add: diffDays_def)

lemma diffDays_Ints: "diffDays s e \<in> \<int>"
  by (simp add: diffDays_def max_def Math_ceil_Ints)

lemma diffDays_same: "diffDays s s = 1"
  by (simp add: diffDays_def Math_ceil_def)

lemma detailDiffDays_Ints: "detailDiffDays s e \<in> \<int>"
  by (simp add: detailDiffDays_def Let_def Math_ceil_Ints)

lemma detailDiffDays_ge_one: "1 \<le> detailDiffDays s e"
proof -
  have nn: "0 \<le> (of_int \<bar>e - s\<bar> / of_int msPerDay :: rat)"
    using msPerDay_pos by simp
  show ?thesis
  proof (cases "(of_int \<bar>e - s\<bar> / of_int msPerDay :: rat) = 0")
    case True
    show ?thesis unfolding detailDiffDays_def Let_def True by (simp add: Math_ceil_def)
  next
    case False
    then have "0 < (of_int \<bar>e - s\<bar> / of_int msPerDay :: rat)" using nn by linarith
    then have "1 \<le> Math_ceil (of_int \<bar>e - s\<bar> / of_int msPerDay)" by (rule Math_ceil_ge_one)
    then show ?thesis by (simp add: detailDiffDays_def Let_def)
  qed
qed

lemma detailDiffDays_same: "detailDiffDays s s = 1"
  by (simp add: detailDiffDays_def Math_ceil_def)

lemma targetDivisor_ge_one: "1 \<le> targetDivisor now l"
  by (simp add: targetDivisor_def Let_def diffDays_ge_one)

lemma targetDivisor_Ints: "targetDivisor now l \<in> \<int>"
  by (simp add: targetDivisor_def Let_def diffDays_Ints max_def Math_ceil_Ints)

lemma collectionDivisor_ge_one: "1 \<le> collectionDivisor now l"
  by (simp add: collectionDivisor_def Let_def diffDays_ge_one)

lemma getInstallmentInfo_count_ge_one:
  "0 < tot \<Longrightarrow> 0 < days \<Longrightarrow> 1 \<le> ii_count (getInstallmentInfo tot days freq)"
  by (simp add: getInstallmentInfo_def Let_def)

lemma getInstallmentInfo_count_Ints:
  "days \<in> \<int> \<Longrightarrow> ii_count (getInstallmentInfo tot days freq) \<in> \<int>"
  by (simp add: getInstallmentInfo_def Let_def Math_ceil_Ints)

lemma getInstallmentInfo_amount:
  "0 < tot \<Longrightarrow> 0 < days \<Longrightarrow>
   ii_amount (getInstallmentInfo tot days freq) = tot / ii_count (getInstallmentInfo tot days freq)"
  by (simp add: getInstallmentInfo_def Let_def)

lemma totalPayable_pos: "0 < p \<Longrightarrow> 0 \<le> r \<Longrightarrow> 0 < totalPayable p r"
proof -
  assume p: "0 < p" and r: "0 \<le> r"
  have "0 \<le> p * (r / 100)" using p r by simp
  then show ?thesis unfolding totalPayable_def using p by linarith
qed

lemma getInstallmentInfo_periodCount:
  assumes "0 < tot" and "1 \<le> days"
  shows "ii_count (getInstallmentInfo tot days freq) = periodCount freq days"
proof -
  have d: "0 < days" using assms(2) by linarith
  have w: "1 \<le> Math_ceil (days / 7)" using d by (intro Math_ceil_ge_one) simp
  have m: "1 \<le> Math_ceil (days / 30)" using d by (intro Math_ceil_ge_one) simp
  show ?thesis
    using assms d w m by (simp add: getInstallmentInfo_def periodCount_def Let_def max_def)
qed

lemma targetDivisor_periodCount:
  "targetDivisor now l =
     periodCount (freqOrDaily (payment_frequency l))
       (diffDays (start_date l) (dueOrNow now (due_date l)))"
  by (simp add: targetDivisor_def periodCount_def Let_def)

lemma collectionDivisor_periodCount:
  assumes "payment_frequency l = Some f"
    and "f = ''daily'' \<or> f = ''weekly'' \<or> f = ''monthly'' \<or> f = ''lump_sum''"
  shows "collectionDivisor now l =
     periodCount f (diffDays (start_date l) (dueOrNow now (due_date l)))"
  using assms by (auto simp add: collectionDivisor_def periodCount_def Let_def)

section \<open>The schedule generator\<close>

text \<open>What \<^verbatim>\<open>incrementDate\<close> adds, frequency by frequency.\<close>

lemma incrementDate_weekly: "incrementDate ''weekly'' en d = d + 7 * msPerDay"
  by (simp add: incrementDate_def setDate_add)

lemma incrementDate_monthly:
  "incrementDate ''monthly'' en d = d + DaysInMonth (getFullYear d) (getMonth d) * msPerDay"
  by (simp add: incrementDate_def setMonth_next)

lemma incrementDate_daily:
  "freq \<noteq> ''weekly'' \<Longrightarrow> freq \<noteq> ''monthly'' \<Longrightarrow> freq \<noteq> ''lump_sum'' \<Longrightarrow>
   incrementDate freq en d = d + msPerDay"
  by (simp add: incrementDate_def setDate_add)

lemma incrementDate_after: "freq \<noteq> ''lump_sum'' \<Longrightarrow> d < incrementDate freq en d"
  by (simp add: incrementDate_def setDate_add setMonth_next msPerDay_def DaysInMonth_def)

text \<open>
  For every stored frequency but monthly the step of the code is the step of the
  specification.  For monthly the two agree when the following month has the day of the
  month of the date.
\<close>

lemma freqOrDaily_weekly: "freqOrDaily f = ''weekly'' \<longleftrightarrow> f = Some ''weekly''"
  by (auto simp add: freqOrDaily_def split: option.splits)

lemma freqOrDaily_monthly: "freqOrDaily f = ''monthly'' \<longleftrightarrow> f = Some ''monthly''"
  by (auto simp add: freqOrDaily_def split: option.splits)

lemma freqOrDaily_lump_sum: "freqOrDaily f = ''lump_sum'' \<longleftrightarrow> f = Some ''lump_sum''"
  by (auto simp add: freqOrDaily_def split: option.splits)

lemma incrementDate_onePeriodLater:
  assumes "f \<noteq> Some ''monthly''" and "f \<noteq> Some ''lump_sum''"
  shows "incrementDate (freqOrDaily f) en = onePeriodLater f"
proof (rule ext)
  fix d
  show "incrementDate (freqOrDaily f) en d = onePeriodLater f d"
  proof (cases "f = Some ''weekly''")
    case True
    then show ?thesis by (simp add: freqOrDaily_def incrementDate_weekly onePeriodLater_def)
  next
    case False
    then have "freqOrDaily f \<noteq> ''weekly''" "freqOrDaily f \<noteq> ''monthly''"
      "freqOrDaily f \<noteq> ''lump_sum''"
      using assms by (simp_all add: freqOrDaily_weekly freqOrDaily_monthly freqOrDaily_lump_sum)
    then show ?thesis using False assms by (simp add: incrementDate_daily onePeriodLater_def)
  qed
qed

lemma MakeDay_normal:
  "MakeDay (y + m div 12) (m mod 12) dt = MakeDay y m dt"
  by (simp add: MakeDay_def Let_def)

lemma incrementDate_monthly_in_month:
  assumes "getDate d \<le> DaysInMonth (getFullYear d + (getMonth d + 1) div 12)
                          ((getMonth d + 1) mod 12)"
  shows "incrementDate ''monthly'' en d = calendarMonthLater d"
  using assms
  by (simp add: incrementDate_def setMonth_def calendarMonthLater_def Let_def MakeDay_normal
        min_def)

text \<open>The loop of the schedule collects the advanced dates.\<close>

lemma scheduleLoop_advancedDates:
  "c \<le> 1000 \<Longrightarrow> n = 1000 - c \<Longrightarrow>
   map sd_date (scheduleLoop freq en today (incrementDate freq en d) c dates)
     = map sd_date dates @ advancedDates n (incrementDate freq en) en d"
proof (induction n arbitrary: c d dates)
  case 0
  then have "c = 1000" by simp
  then show ?case by (subst scheduleLoop.simps) simp
next
  case (Suc n)
  then have c: "c < 1000" "Suc c \<le> 1000" "n = 1000 - Suc c" by simp_all
  show ?case
  proof (cases "incrementDate freq en d \<le> en")
    case True
    have "map sd_date (scheduleLoop freq en today (incrementDate freq en d) c dates)
       = map sd_date (scheduleLoop freq en today
            (incrementDate freq en (incrementDate freq en d)) (Suc c)
            (dates @ [\<lparr>sd_date = incrementDate freq en d,
                        isPast = (setHoursZero (incrementDate freq en d) < today),
                        isToday = (setHoursZero (incrementDate freq en d) = today)\<rparr>]))"
      using True c(1) by (subst scheduleLoop.simps) simp
    also have "\<dots> = map sd_date (dates @ [\<lparr>sd_date = incrementDate freq en d,
                        isPast = (setHoursZero (incrementDate freq en d) < today),
                        isToday = (setHoursZero (incrementDate freq en d) = today)\<rparr>])
          @ advancedDates n (incrementDate freq en) en (incrementDate freq en d)"
      using c(2,3) by (rule Suc.IH)
    finally show ?thesis using True by simp
  next
    case False
    then show ?thesis by (subst scheduleLoop.simps) simp
  qed
qed

lemma schedule_dates: "map se_date (schedule now (Some l)) = map sd_date (scheduleDates now l)"
  by (simp add: schedule_def Let_def o_def)

lemma schedule_advancedDates:
  "map se_date (schedule now (Some l)) =
     (if freqOrDaily (payment_frequency l) = ''lump_sum'' then [dueOrNow now (due_date l)]
      else advancedDates 1000
             (incrementDate (freqOrDaily (payment_frequency l)) (dueOrNow now (due_date l)))
             (dueOrNow now (due_date l)) (start_date l))"
  using scheduleLoop_advancedDates[of 0 1000 "freqOrDaily (payment_frequency l)"
      "dueOrNow now (due_date l)" "setHoursZero now" "start_date l" "[]"]
  by (simp add: schedule_dates scheduleDates_def Let_def)

text \<open>
  So the schedule of every loan that is not monthly has exactly the dates of the
  specification: one entry at the due date for a lump sum; otherwise the dates
  \<open>start + k\<close> periods of 1 day (daily, missing, not recognised) or 7 days (weekly), from
  \<open>k = 1\<close>, not after the due date, 1000 at most.
\<close>

lemma schedule_dates_as_claimed:
  assumes "payment_frequency l \<noteq> Some ''monthly''"
  shows "map se_date (schedule now (Some l)) = claimedDates now l"
proof (cases "payment_frequency l = Some ''lump_sum''")
  case True
  then show ?thesis
    by (simp add: schedule_advancedDates claimedDates_def freqOrDaily_lump_sum)
next
  case False
  then show ?thesis
    using incrementDate_onePeriodLater[OF assms False]
    by (simp add: schedule_advancedDates claimedDates_def freqOrDaily_lump_sum)
qed

text \<open>
  The same holds for a monthly loan that starts on one of the first 28 days of a month:
  the day of the month is kept from one date to the next.
\<close>

lemma getDate_incrementDate_monthly:
  assumes "getDate d \<le> 28"
  shows "getDate (incrementDate ''monthly'' en d) = getDate d"
proof -
  define y where "y = getFullYear d + (getMonth d + 1) div 12"
  define m where "m = (getMonth d + 1) mod 12"
  have m: "0 \<le> m" "m \<le> 11" by (simp_all add: m_def)
  have dt: "1 \<le> getDate d" "getDate d \<le> DaysInMonth y m"
    using DateFromDay_range[of "Day d"] assms DaysInMonth_ge_28[of y m]
    by (simp_all add: getDate_def)
  have "incrementDate ''monthly'' en d = MakeDate (MakeDay y m (getDate d)) (TimeWithinDay d)"
    by (simp add: incrementDate_def setMonth_def y_def m_def MakeDay_normal)
  then have "Day (incrementDate ''monthly'' en d) = MakeDay y m (getDate d)"
    by (simp add: Day_MakeDate_TimeWithinDay)
  then show ?thesis
    using fields_of_MakeDay[OF m dt] by (simp add: getDate_def)
qed

lemma advancedDates_monthly:
  "getDate d \<le> 28 \<Longrightarrow>
   advancedDates n (incrementDate ''monthly'' en) due d = advancedDates n calendarMonthLater due d"
proof (induction n arbitrary: d)
  case 0
  show ?case by simp
next
  case (Suc n)
  have "getDate d \<le> DaysInMonth (getFullYear d + (getMonth d + 1) div 12) ((getMonth d + 1) mod 12)"
    using Suc.prems DaysInMonth_ge_28 order_trans by blast
  then have step: "incrementDate ''monthly'' en d = calendarMonthLater d"
    by (rule incrementDate_monthly_in_month)
  have "getDate (calendarMonthLater d) \<le> 28"
    using getDate_incrementDate_monthly[OF Suc.prems, of en] Suc.prems step by simp
  then show ?case using Suc.IH[of "calendarMonthLater d"] step by simp
qed

lemma schedule_dates_as_claimed_monthly:
  assumes "payment_frequency l = Some ''monthly''" and "getDate (start_date l) \<le> 28"
  shows "map se_date (schedule now (Some l)) = claimedDates now l"
proof -
  have f: "freqOrDaily (payment_frequency l) = ''monthly''"
    using assms(1) by (simp add: freqOrDaily_def)
  have o: "onePeriodLater (payment_frequency l) = calendarMonthLater"
    using assms(1) by (rule_tac ext) (simp add: onePeriodLater_def)
  have "map se_date (schedule now (Some l)) =
      advancedDates 1000 (incrementDate ''monthly'' (dueOrNow now (due_date l)))
        (dueOrNow now (due_date l)) (start_date l)"
    unfolding schedule_advancedDates f by simp
  also have "\<dots> = advancedDates 1000 calendarMonthLater (dueOrNow now (due_date l)) (start_date l)"
    using assms(2) by (rule advancedDates_monthly)
  also have "\<dots> = claimedDates now l"
    unfolding claimedDates_def o using assms(1) by simp
  finally show ?thesis .
qed

lemma schedule_dates_examples:
  "map se_date (schedule 1704499200000 (Some exampleLoan)) =
     [1704153600000, 1704240000000, 1704326400000, 1704412800000, 1704499200000,
      1704585600000, 1704672000000, 1704758400000, 1704844800000, 1704931200000]
   \<and> map se_date (schedule 1704499200000 (Some exampleWeekly)) = [1704672000000]
   \<and> map se_date (schedule 1704499200000 (Some exampleLumpSum)) = [1704931200000]
   \<and> claimedDates 1704499200000 exampleWeekly = [1704672000000]"
  by code_simp

text \<open>
  Claim C1.  The specification advances a monthly schedule by one calendar month at a
  time.  The code advances with \<^verbatim>\<open>setMonth(getMonth() + 1)\<close>, which keeps the
  day of the month and runs over into the month after when the following month is too
  short.  The monthly loan from 2024-01-31 to 2024-06-30 has the dates 2 March, 2 April,
  2 May and 2 June, none in February, where one calendar month at a time gives
  29 February, 29 March, 29 April, 29 May and 29 June.
\<close>

theorem monthly_schedule_skips_february:
  "map se_date (schedule 1706659200000 (Some exampleMonthEnd))
     = [1709337600000, 1712016000000, 1714608000000, 1717286400000]
   \<and> (getMonth 1709337600000, getDate 1709337600000) = (2, 2)
   \<and> (getMonth 1712016000000, getDate 1712016000000) = (3, 2)
   \<and> (getMonth 1714608000000, getDate 1714608000000) = (4, 2)
   \<and> (getMonth 1717286400000, getDate 1717286400000) = (5, 2)
   \<and> claimedDates 1706659200000 exampleMonthEnd
     = [1709164800000, 1711670400000, 1714348800000, 1716940800000, 1719619200000]
   \<and> (getMonth 1709164800000, getDate 1709164800000) = (1, 29)
   \<and> (getMonth 1711670400000, getDate 1711670400000) = (2, 29)
   \<and> (getMonth 1714348800000, getDate 1714348800000) = (3, 29)
   \<and> (getMonth 1716940800000, getDate 1716940800000) = (4, 29)
   \<and> (getMonth 1719619200000, getDate 1719619200000) = (5, 29)"
  by code_simp

section \<open>The period count\<close>

text \<open>
  Claim C2.  The specification asks for the daily rule at every call site when the
  frequency is not one of the four values.  For a loan of 10 days without a frequency (or
  with the unknown value \<^verbatim>\<open>biweekly\<close>) the payment screen and the loan view
  divide by 10; the dashboard divides by 1 and lists the loan, as a daily loan, with the
  whole amount as its target.
\<close>

theorem dashboard_divisor_without_frequency:
  "collectionDivisor 1704499200000 exampleNoFrequency = 1
   \<and> periodCount (freqOrDaily (payment_frequency exampleNoFrequency))
        (diffDays (start_date exampleNoFrequency)
           (dueOrNow 1704499200000 (due_date exampleNoFrequency))) = 10
   \<and> targetDivisor 1704499200000 exampleNoFrequency = 10
   \<and> ii_count (currentInstallmentInfo 1704499200000 exampleNoFrequency) = 10
   \<and> collectionDivisor 1704499200000 (exampleLoan\<lparr>payment_frequency := Some ''biweekly''\<rparr>) = 1
   \<and> targetDivisor 1704499200000 (exampleLoan\<lparr>payment_frequency := Some ''biweekly''\<rparr>) = 10
   \<and> collectionDue 19728 exampleNoFrequency
   \<and> targetAmount (collectionItem 1704499200000 19728 [] [] exampleNoFrequency) = 1200
   \<and> ti_amount (getTargetPayment 1704499200000 exampleNoFrequency) = 120"
  by (simp add: collectionDivisor_def targetDivisor_def currentInstallmentInfo_def
        getInstallmentInfo_def detailDiffDays_def diffDays_def exampleNoFrequency_def
        exampleLoan_def freqOrDaily_def dueOrNow_def Let_def msPerDay_def Math_ceil_def
        collectionDue_def collectionItem_def getTargetPayment_def periodCount_def
        setHoursZero_def dateOfIso_def MakeDate_def Day_def)

section \<open>The amortization figures\<close>

text \<open>
  The installment preview returns the quotient itself, not its ceiling: 1000 over 3
  daily periods gives the amount 1000/3.
\<close>

theorem preview_amount_not_rounded:
  "ii_amount (getInstallmentInfo (totalPayable 1000 0) 3 ''daily'')
     \<noteq> Math_ceil (totalPayable 1000 0
                    / ii_count (getInstallmentInfo (totalPayable 1000 0) 3 ''daily''))
   \<and> ii_amount (getInstallmentInfo (totalPayable 1000 0) 3 ''daily'') = 1000 / 3
   \<and> ii_count (getInstallmentInfo (totalPayable 1000 0) 3 ''daily'') = 3"
  by code_simp

text \<open>
  Claim C3, amended.  For a principal above 0 and an interest rate that is not negative,
  the total payable is principal + principal * rate / 100.  For a whole number of days,
  at least 1, the installment preview returns a period count that is an integer and at
  least 1, together with the exact quotient of the total payable by the period count;
  the installment that the loan view shows is the ceiling of that quotient.  For a stored
  loan with this total payable the same holds for the loan view, and the payment screen
  returns the ceiling of the total payable divided by its period count, an integer that
  is at least 1.
\<close>

theorem amortization_figures:
  assumes "0 < p" and "0 \<le> r"
  shows "totalPayable p r = p + p * r / 100
     \<and> (days \<in> \<int> \<and> 1 \<le> days \<longrightarrow>
          ii_count (getInstallmentInfo (totalPayable p r) days freq) \<in> \<int>
        \<and> 1 \<le> ii_count (getInstallmentInfo (totalPayable p r) days freq)
        \<and> ii_amount (getInstallmentInfo (totalPayable p r) days freq)
            = totalPayable p r / ii_count (getInstallmentInfo (totalPayable p r) days freq)
        \<and> shownInstallment (getInstallmentInfo (totalPayable p r) days freq)
            = Math_ceil (totalPayable p r / ii_count (getInstallmentInfo (totalPayable p r) days freq)))
     \<and> (total_payable l = totalPayable p r \<longrightarrow>
          ii_count (currentInstallmentInfo now l) \<in> \<int>
        \<and> 1 \<le> ii_count (currentInstallmentInfo now l)
        \<and> shownInstallment (currentInstallmentInfo now l)
            = Math_ceil (total_payable l / ii_count (currentInstallmentInfo now l))
        \<and> targetDivisor now l \<in> \<int>
        \<and> 1 \<le> targetDivisor now l
        \<and> ti_amount (getTargetPayment now l) = Math_ceil (total_payable l / targetDivisor now l))"
proof (intro conjI impI)
  show "totalPayable p r = p + p * r / 100" by (simp add: totalPayable_def)
next
  assume d: "days \<in> \<int> \<and> 1 \<le> days"
  then have dp: "0 < days" by linarith
  have tp: "0 < totalPayable p r" using assms by (rule totalPayable_pos)
  show "ii_count (getInstallmentInfo (totalPayable p r) days freq) \<in> \<int>"
    using d by (simp add: getInstallmentInfo_count_Ints)
  show "1 \<le> ii_count (getInstallmentInfo (totalPayable p r) days freq)"
    using tp dp by (rule getInstallmentInfo_count_ge_one)
  show "ii_amount (getInstallmentInfo (totalPayable p r) days freq)
            = totalPayable p r / ii_count (getInstallmentInfo (totalPayable p r) days freq)"
    using tp dp by (rule getInstallmentInfo_amount)
  then show "shownInstallment (getInstallmentInfo (totalPayable p r) days freq)
            = Math_ceil (totalPayable p r / ii_count (getInstallmentInfo (totalPayable p r) days freq))"
    by (simp add: shownInstallment_def)
next
  assume t: "total_payable l = totalPayable p r"
  have tp: "0 < total_payable l" unfolding t using assms by (rule totalPayable_pos)
  have dp: "0 < detailDiffDays (start_date l) (dueOrNow now (due_date l))"
    using detailDiffDays_ge_one[of "start_date l" "dueOrNow now (due_date l)"] by linarith
  show "ii_count (currentInstallmentInfo now l) \<in> \<int>"
    unfolding currentInstallmentInfo_def
    by (rule getInstallmentInfo_count_Ints) (rule detailDiffDays_Ints)
  show "1 \<le> ii_count (currentInstallmentInfo now l)"
    unfolding currentInstallmentInfo_def using tp dp by (rule getInstallmentInfo_count_ge_one)
  show "shownInstallment (currentInstallmentInfo now l)
            = Math_ceil (total_payable l / ii_count (currentInstallmentInfo now l))"
    unfolding currentInstallmentInfo_def shownInstallment_def
    using getInstallmentInfo_amount[OF tp dp] by simp
  show "targetDivisor now l \<in> \<int>" by (rule targetDivisor_Ints)
  show "1 \<le> targetDivisor now l" by (rule targetDivisor_ge_one)
  show "ti_amount (getTargetPayment now l) = Math_ceil (total_payable l / targetDivisor now l)"
    by (simp add: getTargetPayment_def)
qed

theorem amortization_figures_witness:
  "totalPayable 1000 20 = 1200
   \<and> ii_count (getInstallmentInfo (totalPayable 1000 20) 10 ''daily'') = 10
   \<and> shownInstallment (getInstallmentInfo (totalPayable 1000 20) 10 ''daily'') = 120
   \<and> ti_amount (getTargetPayment 1704499200000 exampleLoan) = 120"
proof -
  have h: "(0::rat) < 1000" "(0::rat) \<le> 20" by simp_all
  have d: "(10::rat) \<in> \<int> \<and> 1 \<le> (10::rat)" by simp
  have t: "total_payable exampleLoan = totalPayable 1000 20"
    by (simp add: exampleLoan_def totalPayable_def)
  have c: "ii_count (getInstallmentInfo (totalPayable 1000 20) 10 ''daily'') = 10"
    by (simp add: getInstallmentInfo_def totalPayable_def)
  have td: "targetDivisor 1704499200000 exampleLoan = 10"
    by code_simp
  have tt: "totalPayable 1000 20 = 1200" by (simp add: totalPayable_def)
  have tl: "total_payable exampleLoan = 1200" by (simp add: exampleLoan_def)
  note inst = amortization_figures[OF h, of 10 "''daily''" exampleLoan 1704499200000]
  from inst d have "shownInstallment (getInstallmentInfo (totalPayable 1000 20) 10 ''daily'')
      = Math_ceil (totalPayable 1000 20 / ii_count (getInstallmentInfo (totalPayable 1000 20) 10 ''daily''))"
    by blast
  then have s: "shownInstallment (getInstallmentInfo (totalPayable 1000 20) 10 ''daily'') = 120"
    unfolding c unfolding tt by (simp add: Math_ceil_def)
  from inst t have "ti_amount (getTargetPayment 1704499200000 exampleLoan)
      = Math_ceil (total_payable exampleLoan / targetDivisor 1704499200000 exampleLoan)"
    by blast
  then have g: "ti_amount (getTargetPayment 1704499200000 exampleLoan) = 120"
    unfolding td tl by (simp add: Math_ceil_def)
  show ?thesis using tt c s g by simp
qed

section \<open>The loans due on a selected date\<close>



section \<open>The standing classifier\<close>










section \<open>Payments against the target of a date\<close>

lemma foldl_amounts: "foldl (\<lambda>acc curr. acc + amount curr) a ps = a + sum_list (map amount ps)"
  by (induction ps arbitrary: a) simp_all

lemma amountPaidToday_sum: "amountPaidToday now ps = collectedOn (Day now) ps"
  by (simp add: amountPaidToday_def paymentsToday_def collectedOn_def foldl_amounts isoDate_def)

lemma find_Some_ex: "(\<exists>y. find P xs = Some y) = (\<exists>x\<in>set xs. P x)"
  by (induction xs) auto

text \<open>
  In the borrower portal the amount collected today is the sum of the amounts of the
  payments dated today, the remaining amount is the target less the amount collected,
  and not below 0, and the loan is fully paid today exactly when the amount collected
  reaches the target.
\<close>

lemma portal_reconciliation:
  "amountPaidToday now ps = collectedOn (Day now) ps
   \<and> remainingDueToday now loanData ps
       = max 0 (currentInstallmentAmount now loanData - collectedOn (Day now) ps)
   \<and> isFullyPaidToday now loanData ps
       = (currentInstallmentAmount now loanData \<le> collectedOn (Day now) ps)"
  by (simp add: remainingDueToday_def isFullyPaidToday_def amountPaidToday_sum)

lemma portal_reconciliation_example:
  "remainingDueToday 1704499200000 (Some exampleLoan) [examplePayment 50] = 70
   \<and> \<not> isFullyPaidToday 1704499200000 (Some exampleLoan) [examplePayment 50]
   \<and> remainingDueToday 1704499200000 (Some exampleLoan) [examplePayment 150] = 0
   \<and> isFullyPaidToday 1704499200000 (Some exampleLoan) [examplePayment 150]"
proof -
  have t: "currentInstallmentAmount 1704499200000 (Some exampleLoan) = 120"
    by code_simp
  have d: "Day 1704499200000 = 19728" by (simp add: Day_def msPerDay_def)
  have c50: "collectedOn 19728 [examplePayment 50] = 50" by code_simp
  have c150: "collectedOn 19728 [examplePayment 150] = 150" by code_simp
  show ?thesis
    using portal_reconciliation[of 1704499200000 "[examplePayment 50]" "Some exampleLoan"]
      portal_reconciliation[of 1704499200000 "[examplePayment 150]" "Some exampleLoan"]
    unfolding t d c50 c150 by simp
qed

text \<open>
  On the dashboard the flag and the amount come from the first payment of the loan that
  is dated on the selected date.
\<close>

lemma dashboard_paid_flag:
  "isPaid (collectionItem now sel borrowers payments l)
     = (\<exists>p\<in>set payments. pay_loan_id p = loan_id l \<and> Day (payment_date p) = sel)"
  by (simp add: collectionItem_def Let_def find_Some_ex isoDate_def)

text \<open>
  Claim C6.  The specification asks, at every place that marks a loan as paid or unpaid
  for a date, for the sum of the payments of that date and for "fully paid" exactly when
  the sum reaches the target.  The borrower portal does so.  The dashboard does not: for
  the example loan (target 120) on 2024-01-06, one payment of 50 marks the loan as paid,
  where the sum 50 is below the target and the portal reports it as not fully paid; and
  with payments of 50 and 70 the dashboard reports the amount 50, where the sum, and the
  amount the portal reports, is 120.
\<close>

theorem dashboard_paid_flag_ignores_target:
  "isPaid (collectionItem 1704499200000 19728 [] [examplePayment 50] exampleLoan)
   \<and> targetAmount (collectionItem 1704499200000 19728 [] [examplePayment 50] exampleLoan) = 120
   \<and> collectedOn 19728 [examplePayment 50] = 50
   \<and> \<not> isFullyPaidToday 1704499200000 (Some exampleLoan) [examplePayment 50]
   \<and> paidAmount (collectionItem 1704499200000 19728 []
        [examplePayment 50, examplePayment 70] exampleLoan) = 50
   \<and> collectedOn 19728 [examplePayment 50, examplePayment 70] = 120
   \<and> amountPaidToday 1704499200000 [examplePayment 50, examplePayment 70] = 120"
  by code_simp

section \<open>The classification of schedule entries\<close>

text \<open>
  The entries of every frequency other than lump sum are compared by day: an entry is
  past when its day is before the day of \<open>now\<close>, and today when the days are equal.
\<close>

lemma scheduleLoop_entries:
  assumes "\<forall>e\<in>set dates. isPast e = (Day (sd_date e) < Day now) \<and> isToday e = (Day (sd_date e) = Day now)"
  shows "\<forall>e\<in>set (scheduleLoop freq en (setHoursZero now) current safetyCounter dates).
           isPast e = (Day (sd_date e) < Day now) \<and> isToday e = (Day (sd_date e) = Day now)"
  using assms
proof (induction freq en "setHoursZero now" current safetyCounter dates rule: scheduleLoop.induct)
  case (1 freq en current safetyCounter dates)
  show ?case
  proof (cases "current \<le> en \<and> safetyCounter < 1000")
    case True
    have "\<forall>e\<in>set (dates @ [\<lparr>sd_date = current, isPast = (setHoursZero current < setHoursZero now),
                        isToday = (setHoursZero current = setHoursZero now)\<rparr>]).
            isPast e = (Day (sd_date e) < Day now) \<and> isToday e = (Day (sd_date e) = Day now)"
      using "1.prems" by (simp add: setHoursZero_less setHoursZero_eq)
    from "1.hyps"[OF True this] show ?thesis
      using True by (subst scheduleLoop.simps) simp
  next
    case False
    then show ?thesis using "1.prems" by (subst scheduleLoop.simps) auto
  qed
qed

lemma periodic_entries_classified:
  assumes "freqOrDaily (payment_frequency l) \<noteq> ''lump_sum''"
  shows "\<forall>e\<in>set (schedule now (Some l)).
           se_isPast e = (Day (se_date e) < Day now) \<and> se_isToday e = (Day (se_date e) = Day now)"
proof -
  have "\<forall>e\<in>set (scheduleDates now l).
           isPast e = (Day (sd_date e) < Day now) \<and> isToday e = (Day (sd_date e) = Day now)"
    using assms scheduleLoop_entries[of "[]" now]
    by (simp add: scheduleDates_def Let_def)
  then show ?thesis by (simp add: schedule_def Let_def)
qed

lemma periodic_entries_class:
  assumes "freqOrDaily (payment_frequency l) \<noteq> ''lump_sum''"
    and "e \<in> set (schedule now (Some l))"
  shows "entryStatus e = temporalClass now (se_date e)"
  using periodic_entries_classified[OF assms(1), of now] assms(2)
  by (simp add: entryStatus_def temporalClass_def)

text \<open>
  Claim C7.  The specification asks that an entry be "today" whenever its calendar date
  is the reference date, the lump-sum entry included.  The lump-sum branch compares the due
  instant itself with midnight of today: a lump-sum loan due on 2024-01-11 at 10:30, seen
  on 2024-01-11 at 12:00, has its single entry neither past nor today, although both
  instants are on the same day.
\<close>

theorem lump_sum_entry_not_today:
  "schedule 1704974400000 (Some exampleLumpSumLate) =
     [\<lparr>se_date = 1704969000000, se_isPast = False, se_isToday = False, se_amount = 1200\<rparr>]
   \<and> map entryStatus (schedule 1704974400000 (Some exampleLumpSumLate)) = [Upcoming]
   \<and> temporalClass 1704974400000 1704969000000 = Today"
  by (simp add: schedule_def scheduleDates_def exampleLumpSumLate_def exampleLumpSum_def
        exampleLoan_def freqOrDaily_def dueOrNow_def Let_def setHoursZero_def MakeDate_def
        Day_def msPerDay_def Math_ceil_def entryStatus_def temporalClass_def)

section \<open>Divisors\<close>

text \<open>
  The installment preview does not clamp a day count of 0: it returns the count 0 (and
  the amount 0, without dividing).
\<close>

theorem zero_days_count_is_zero:
  "\<not> 1 \<le> ii_count (getInstallmentInfo 1200 0 ''daily'')"
  by (simp add: getInstallmentInfo_def)

text \<open>
  Claim C8, amended.  For a positive total and a positive day count the divisor of the
  installment preview is at least 1 and the division is exact; for a total or a day count
  that is not positive the preview returns amount 0 and count 0 without dividing.  For a
  stored loan the day count is at least 1 (it is 1 when the start date and the due date
  coincide), and the divisors of the payment screen and of the dashboard are at least 1.
  No division by zero occurs.
\<close>

theorem divisors_at_least_one:
  "(0 < tot \<and> 0 < days \<longrightarrow>
      1 \<le> ii_count (getInstallmentInfo tot days freq)
      \<and> ii_amount (getInstallmentInfo tot days freq) * ii_count (getInstallmentInfo tot days freq) = tot)
   \<and> (tot \<le> 0 \<or> days \<le> 0 \<longrightarrow>
      getInstallmentInfo tot days freq = \<lparr>ii_amount = 0, ii_count = 0\<rparr>)
   \<and> (0 < total_payable l \<longrightarrow> 1 \<le> ii_count (currentInstallmentInfo now l))
   \<and> 1 \<le> targetDivisor now l
   \<and> 1 \<le> collectionDivisor now l
   \<and> 1 \<le> diffDays s e \<and> 1 \<le> detailDiffDays s e
   \<and> diffDays s s = 1 \<and> detailDiffDays s s = 1"
proof -
  have a: "0 < tot \<and> 0 < days \<longrightarrow>
      1 \<le> ii_count (getInstallmentInfo tot days freq)
      \<and> ii_amount (getInstallmentInfo tot days freq) * ii_count (getInstallmentInfo tot days freq) = tot"
  proof (intro impI, elim conjE)
    assume h: "0 < tot" "0 < days"
    have c: "1 \<le> ii_count (getInstallmentInfo tot days freq)"
      using h by (rule getInstallmentInfo_count_ge_one)
    then have "ii_count (getInstallmentInfo tot days freq) \<noteq> 0" by linarith
    then have "ii_amount (getInstallmentInfo tot days freq) * ii_count (getInstallmentInfo tot days freq) = tot"
      using getInstallmentInfo_amount[OF h, of freq] by simp
    then show "1 \<le> ii_count (getInstallmentInfo tot days freq)
      \<and> ii_amount (getInstallmentInfo tot days freq) * ii_count (getInstallmentInfo tot days freq) = tot"
      using c by simp
  qed
  have b: "tot \<le> 0 \<or> days \<le> 0 \<longrightarrow>
      getInstallmentInfo tot days freq = \<lparr>ii_amount = 0, ii_count = 0\<rparr>"
    by (simp add: getInstallmentInfo_def)
  have c: "0 < total_payable l \<longrightarrow> 1 \<le> ii_count (currentInstallmentInfo now l)"
  proof
    assume t: "0 < total_payable l"
    have "0 < detailDiffDays (start_date l) (dueOrNow now (due_date l))"
      using detailDiffDays_ge_one[of "start_date l" "dueOrNow now (due_date l)"] by linarith
    then show "1 \<le> ii_count (currentInstallmentInfo now l)"
      unfolding currentInstallmentInfo_def using t by (rule getInstallmentInfo_count_ge_one[rotated])
  qed
  show ?thesis
    using a b c targetDivisor_ge_one[of now l] collectionDivisor_ge_one[of now l]
      diffDays_ge_one[of s e] detailDiffDays_ge_one[of s e] diffDays_same[of s]
      detailDiffDays_same[of s]
    by blast
qed

theorem divisors_at_least_one_witness:
  "ii_count (getInstallmentInfo 1200 3 ''weekly'') = 1
   \<and> ii_amount (getInstallmentInfo 1200 3 ''weekly'') = 1200
   \<and> getInstallmentInfo 1200 0 ''weekly'' = \<lparr>ii_amount = 0, ii_count = 0\<rparr>
   \<and> 1 \<le> ii_count (currentInstallmentInfo 1704499200000 exampleLoan)"
proof -
  have c: "ii_count (getInstallmentInfo 1200 3 ''weekly'') = 1"
    by code_simp
  have t: "0 < total_payable exampleLoan" by (simp add: exampleLoan_def)
  show ?thesis
    using divisors_at_least_one[of 1200 3 "''weekly''" exampleLoan 1704499200000 0 0]
      divisors_at_least_one[of 1200 0 "''weekly''" exampleLoan 1704499200000 0 0]
    unfolding c using t by simp
qed

section \<open>Recording a payment\<close>

lemma find_map_updateLoan:
  "find (\<lambda>x. loan_id x = sel) ls = Some l \<Longrightarrow>
   find (\<lambda>x. loan_id x = sel) (map (updateLoan sel b s) ls)
     = Some (l\<lparr>balance := b, status := s\<rparr>)"
  by (induction ls) (auto simp: updateLoan_def)

text \<open>
  Claim C9.  When a payment of amount \<open>a\<close> is recorded against the loan with balance
  \<open>B\<close> (both requests to the store succeeding), the loan is stored with balance
  \<open>max 0 (B - a)\<close>: never negative, and not above \<open>B\<close> for amounts and balances that are
  not negative.  Its status is paid exactly when the new balance is 0, and active
  otherwise.  The payment is appended to the payments.
\<close>

theorem payment_application:
  assumes "find (\<lambda>x. loan_id x = sel) (st_loans st) = Some l" and "sel \<noteq> []"
  shows "\<exists>l'. find (\<lambda>x. loan_id x = sel)
                (st_loans (handleSubmit now False False sel (Some a) st)) = Some l'
     \<and> balance l' = max 0 (balance l - a)
     \<and> 0 \<le> balance l'
     \<and> (0 \<le> a \<and> 0 \<le> balance l \<longrightarrow> balance l' \<le> balance l)
     \<and> (status l' = Paid \<longleftrightarrow> balance l' = 0)
     \<and> (balance l' \<noteq> 0 \<longrightarrow> status l' = Active)
     \<and> st_payments (handleSubmit now False False sel (Some a) st)
           = st_payments st @ [\<lparr>pay_loan_id = sel, amount = a, payment_date = now\<rparr>]"
  using assms
  by (simp add: handleSubmit_def Let_def find_map_updateLoan)

theorem payment_application_witness:
  "(\<exists>l'. find (\<lambda>x. loan_id x = ''L-1'')
            (st_loans (handleSubmit 1704499200000 False False ''L-1'' (Some 200)
               \<lparr>st_loans = [exampleLoan], st_payments = []\<rparr>)) = Some l'
        \<and> balance l' = 1000 \<and> status l' = Active)
   \<and> (\<exists>l'. find (\<lambda>x. loan_id x = ''L-1'')
            (st_loans (handleSubmit 1704499200000 False False ''L-1'' (Some 1500)
               \<lparr>st_loans = [exampleLoan], st_payments = []\<rparr>)) = Some l'
        \<and> balance l' = 0 \<and> status l' = Paid)"
proof -
  have f: "find (\<lambda>x. loan_id x = ''L-1'') (st_loans \<lparr>st_loans = [exampleLoan], st_payments = []\<rparr>)
             = Some exampleLoan"
    by (simp add: exampleLoan_def)
  have n: "''L-1'' \<noteq> []" by simp
  have b: "balance exampleLoan = 1200" by (simp add: exampleLoan_def)
  from payment_application[OF f n, of 1704499200000 200]
  have "\<exists>l'. find (\<lambda>x. loan_id x = ''L-1'')
            (st_loans (handleSubmit 1704499200000 False False ''L-1'' (Some 200)
               \<lparr>st_loans = [exampleLoan], st_payments = []\<rparr>)) = Some l'
        \<and> balance l' = 1000 \<and> status l' = Active"
    unfolding b by auto
  moreover from payment_application[OF f n, of 1704499200000 1500]
  have "\<exists>l'. find (\<lambda>x. loan_id x = ''L-1'')
            (st_loans (handleSubmit 1704499200000 False False ''L-1'' (Some 1500)
               \<lparr>st_loans = [exampleLoan], st_payments = []\<rparr>)) = Some l'
        \<and> balance l' = 0 \<and> status l' = Paid"
    unfolding b by auto
  ultimately show ?thesis by blast
qed

section \<open>The loans offered for payment\<close>

text \<open>
  Claim C10.  The loans offered on the payment screen are exactly the loans with a
  balance above 0, whatever their status: a defaulted loan with a positive balance is
  offered, an active loan with balance 0 is not.
\<close>

theorem offered_loans_have_positive_balance:
  "set (activeLoans loans) = {l \<in> set loans. 0 < balance l}
   \<and> activeLoans (map (\<lambda>l. l\<lparr>status := s\<rparr>) loans)
       = map (\<lambda>l. l\<lparr>status := s\<rparr>) (activeLoans loans)
   \<and> activeLoans [l\<lparr>status := Defaulted, balance := 500\<rparr>, l\<lparr>status := Active, balance := 0\<rparr>]
       = [l\<lparr>status := Defaulted, balance := 500\<rparr>]"
  by (auto simp add: activeLoans_def filter_map o_def)

end
